theory Spec2Isabelle
  imports Complex_Main
begin

section \<open>JavaScript values used by the transcription pipeline\<close>

text \<open>
  Numbers of the program are IEEE doubles; they are modelled as reals, so rounding of
  the arithmetic itself is abstracted away. A numeric field the code reads through
  \<^verbatim>\<open>x || d\<close>, \<^verbatim>\<open>x ? a : b\<close> or \<^verbatim>\<open>!x\<close> is a \<open>real option\<close>: \<open>None\<close> is \<^verbatim>\<open>undefined\<close>.
  A value thrown by \<^verbatim>\<open>throw new Error(msg)\<close> is \<open>Error msg\<close>; a property read on
  \<^verbatim>\<open>undefined\<close> is \<open>TypeError\<close>.
\<close>

datatype js_error = Error string | TypeError

definition truthy :: "real option \<Rightarrow> bool" where
  "truthy x = (case x of None \<Rightarrow> False | Some v \<Rightarrow> v \<noteq> 0)"

definition js_le :: "real \<Rightarrow> real option \<Rightarrow> bool" where
  "js_le a b = (case b of None \<Rightarrow> False | Some v \<Rightarrow> a \<le> v)"

definition or_default :: "real option \<Rightarrow> real \<Rightarrow> real" where
  "or_default x d = (if truthy x then the x else d)"

text \<open>The property names every plain object inherits from \<^verbatim>\<open>Object.prototype\<close>.\<close>

definition objectPrototypeKeys :: "string list" where
  "objectPrototypeKeys =
     [''constructor'', ''__defineGetter__'', ''__defineSetter__'', ''hasOwnProperty'',
      ''__lookupGetter__'', ''__lookupSetter__'', ''isPrototypeOf'', ''propertyIsEnumerable'',
      ''toString'', ''valueOf'', ''__proto__'', ''toLocaleString'']"

section \<open>Provider registry and selection (config/ai-services.js)\<close>

record limits =
  maxFileSize :: real
  maxDuration :: "real option"

record retry =
  maxAttempts :: nat
  backoffMultiplier :: nat
  initialDelay :: nat

record stt_config =
  enabled :: bool
  cfg_languages :: "string list"
  cfg_retry :: "retry option"
  cfg_limits :: limits

text \<open>
  The object \<^verbatim>\<open>sttServices\<close>, in the order of its keys. The four \<^verbatim>\<open>enabled\<close> flags
  are read from the environment, so they are parameters.
\<close>

definition mainLanguages :: "string list" where
  "mainLanguages = [''vi-VN'', ''en-US'', ''zh-CN'', ''ja-JP'', ''ko-KR'']"

definition sttServices :: "bool \<Rightarrow> bool \<Rightarrow> bool \<Rightarrow> bool \<Rightarrow> (string \<times> stt_config) list" where
  "sttServices fptOn whisperOn googleOn azureOn =
    [(''fpt'', \<lparr>enabled = fptOn, cfg_languages = [''vi-VN'', ''en-US''],
        cfg_retry = Some \<lparr>maxAttempts = 3, backoffMultiplier = 2, initialDelay = 1000\<rparr>,
        cfg_limits = \<lparr>maxFileSize = 100 * 1024 * 1024, maxDuration = Some 3600\<rparr>\<rparr>),
     (''whisper'', \<lparr>enabled = whisperOn,
        cfg_languages = [''auto'', ''en'', ''vi'', ''zh'', ''ja'', ''ko'', ''fr'', ''de'', ''es'',
                         ''it'', ''pt'', ''ru''],
        cfg_retry = None,
        cfg_limits = \<lparr>maxFileSize = 25 * 1024 * 1024, maxDuration = None\<rparr>\<rparr>),
     (''google'', \<lparr>enabled = googleOn, cfg_languages = mainLanguages, cfg_retry = None,
        cfg_limits = \<lparr>maxFileSize = 1024 * 1024 * 1024, maxDuration = Some (480 * 60)\<rparr>\<rparr>),
     (''azure'', \<lparr>enabled = azureOn, cfg_languages = mainLanguages, cfg_retry = None,
        cfg_limits = \<lparr>maxFileSize = 1024 * 1024 * 1024, maxDuration = Some (240 * 60)\<rparr>\<rparr>)]"

record available_service =
  name :: string
  languages :: "string list"
  limits :: limits

definition getAvailableSTTServices :: "(string \<times> stt_config) list \<Rightarrow> available_service list" where
  "getAvailableSTTServices services =
     map (\<lambda>(n, config). \<lparr>name = n, languages = cfg_languages config, limits = cfg_limits config\<rparr>)
       (filter (\<lambda>(_, config). enabled config) services)"

definition priorityOrder :: "string list" where
  "priorityOrder = [''fpt'', ''whisper'', ''google'', ''azure'']"

definition noSuitableMessage :: string where
  "noSuitableMessage = ''No suitable STT service available for the given requirements''"

text \<open>The \<^verbatim>\<open>for (const serviceName of priorityOrder)\<close> loop and the return after it.\<close>

fun priorityLoop :: "string list \<Rightarrow> available_service list \<Rightarrow> js_error + string" where
  "priorityLoop [] suitableServices =
     (case suitableServices of [] \<Rightarrow> Inl TypeError | s # _ \<Rightarrow> Inr (name s))"
| "priorityLoop (serviceName # rest) suitableServices =
     (case find (\<lambda>s. name s = serviceName) suitableServices of
        Some service \<Rightarrow> Inr (name service)
      | None \<Rightarrow> priorityLoop rest suitableServices)"

definition suitableSTTServices ::
  "(string \<times> stt_config) list \<Rightarrow> string \<Rightarrow> real \<Rightarrow> real \<Rightarrow> available_service list" where
  "suitableSTTServices services language fileSize duration =
     (let availableServices = getAvailableSTTServices services;
          compatibleServices = filter (\<lambda>service.
             language \<in> set (languages service) \<or> ''auto'' \<in> set (languages service))
             availableServices
      in filter (\<lambda>service.
             fileSize \<le> maxFileSize (limits service) \<and>
             (js_le duration (maxDuration (limits service)) \<or>
              \<not> truthy (maxDuration (limits service))))
           compatibleServices)"

definition getBestSTTService ::
  "(string \<times> stt_config) list \<Rightarrow> string \<Rightarrow> real \<Rightarrow> real \<Rightarrow> js_error + string" where
  "getBestSTTService services language fileSize duration =
     (let suitableServices = suitableSTTServices services language fileSize duration
      in if length suitableServices = 0 then Inl (Error noSuitableMessage)
         else priorityLoop priorityOrder suitableServices)"

subsection \<open>The selection rule in the words of the specification\<close>

definition spec_enabled :: "(string \<times> stt_config) list \<Rightarrow> (string \<times> stt_config) list" where
  "spec_enabled services = filter (\<lambda>p. enabled (snd p)) services"

definition spec_language_ok :: "string \<Rightarrow> (string \<times> stt_config) list \<Rightarrow> (string \<times> stt_config) list" where
  "spec_language_ok language ps =
     filter (\<lambda>p. language \<in> set (cfg_languages (snd p)) \<or> ''auto'' \<in> set (cfg_languages (snd p))) ps"

definition spec_within_ceilings :: "real \<Rightarrow> real \<Rightarrow> (string \<times> stt_config) list \<Rightarrow> (string \<times> stt_config) list" where
  "spec_within_ceilings fileSize duration ps =
     filter (\<lambda>p. fileSize \<le> maxFileSize (cfg_limits (snd p)) \<and>
                 (case maxDuration (cfg_limits (snd p)) of None \<Rightarrow> True | Some d \<Rightarrow> duration \<le> d)) ps"

definition spec_survivors ::
  "(string \<times> stt_config) list \<Rightarrow> string \<Rightarrow> real \<Rightarrow> real \<Rightarrow> string list" where
  "spec_survivors services language fileSize duration =
     map fst (spec_within_ceilings fileSize duration
               (spec_language_ok language (spec_enabled services)))"

definition spec_selectProvider ::
  "(string \<times> stt_config) list \<Rightarrow> string \<Rightarrow> real \<Rightarrow> real \<Rightarrow> string option" where
  "spec_selectProvider services language fileSize duration =
     (case spec_survivors services language fileSize duration of
        [] \<Rightarrow> None
      | first # others \<Rightarrow>
          (case filter (\<lambda>p. p \<in> set (first # others)) priorityOrder of
             [] \<Rightarrow> Some first
           | best # _ \<Rightarrow> Some best))"

text \<open>
  The reason a request finds no provider, as the specification distinguishes them:
  no enabled provider knows the language, or none of those takes the size, or none of
  those takes the duration.
\<close>

datatype filtering_reason = UnsupportedLanguage | FileTooLarge | DurationTooLong

definition spec_filteringReason ::
  "(string \<times> stt_config) list \<Rightarrow> string \<Rightarrow> real \<Rightarrow> real \<Rightarrow> filtering_reason option" where
  "spec_filteringReason services language fileSize duration =
     (let compatible = spec_language_ok language (spec_enabled services);
          sized = filter (\<lambda>p. fileSize \<le> maxFileSize (cfg_limits (snd p))) compatible
      in if compatible = [] then Some UnsupportedLanguage
         else if sized = [] then Some FileTooLarge
         else if spec_within_ceilings fileSize duration compatible = [] then Some DurationTooLong
         else None)"

section \<open>Segments and post-processing (services/speechToTextService.js)\<close>

text \<open>
  A string is the list of its code points. A segment's \<^verbatim>\<open>id\<close> is its index, or the
  string \<^verbatim>\<open>break_${i}\<close> of a paragraph-break marker. The marker has no \<^verbatim>\<open>words\<close>
  property and the other segments have no \<^verbatim>\<open>type\<close> property: both are options.
  The provider's word objects are opaque (\<open>'w\<close>).
\<close>

type_synonym jsstring = "nat list"

definition ustr :: "string \<Rightarrow> jsstring" where
  "ustr s = map of_char s"

datatype segment_id = Index nat | Break nat

record 'w segment =
  seg_id :: segment_id
  seg_text :: jsstring
  startTime :: real
  endTime :: real
  confidence :: real
  speaker :: string
  words :: "'w list option"
  seg_type :: "string option"

subsection \<open>cleanTranscriptText\<close>

text \<open>
  \<^verbatim>\<open>\s\<close> and \<^verbatim>\<open>trim()\<close> know the same white space: TAB, LF, VT, FF, CR, SP, NBSP, U+1680,
  U+2000 to U+200A, LS, PS, U+202F, U+205F, U+3000 and U+FEFF. \<^verbatim>\<open>\w\<close> is
  \<^verbatim>\<open>[A-Za-z0-9_]\<close>. The table behind \<^verbatim>\<open>\p{P}\<close> belongs to the JavaScript engine, not to
  the repository: it is the parameter \<open>punct\<close>.
\<close>

definition isSpace :: "nat \<Rightarrow> bool" where
  "isSpace c = (c \<in> set [9, 10, 11, 12, 13, 32, 160, 5760, 8232, 8233, 8239, 8287, 12288, 65279]
                \<or> (8192 \<le> c \<and> c \<le> 8202))"

definition isWord :: "nat \<Rightarrow> bool" where
  "isWord c = ((48 \<le> c \<and> c \<le> 57) \<or> (65 \<le> c \<and> c \<le> 90) \<or> c = 95 \<or> (97 \<le> c \<and> c \<le> 122))"

text \<open>The code points below U+0080 of general category P.\<close>

definition asciiPunctuation :: "nat \<Rightarrow> bool" where
  "asciiPunctuation c = (c \<in> set [33, 34, 35, 37, 38, 39, 40, 41, 42, 44, 45, 46, 47, 58, 59, 63,
                                   64, 91, 92, 93, 95, 123, 125])"

text \<open>\<^verbatim>\<open>.replace(/\s+/g, ' ')\<close>: every maximal run of white space becomes one space.\<close>

function collapseSpaces :: "jsstring \<Rightarrow> jsstring" where
  "collapseSpaces [] = []"
| "collapseSpaces (c # cs) =
     (if isSpace c then 32 # collapseSpaces (dropWhile isSpace cs) else c # collapseSpaces cs)"
  by pat_completeness auto
termination
  by (relation "measure length") (auto simp: length_dropWhile_le less_Suc_eq_le)

text \<open>\<^verbatim>\<open>.replace(/[^\w\s\p{P}]/gu, '')\<close>\<close>

definition keepChar :: "(nat \<Rightarrow> bool) \<Rightarrow> nat \<Rightarrow> bool" where
  "keepChar punct c = (isWord c \<or> isSpace c \<or> punct c)"

definition removeSpecial :: "(nat \<Rightarrow> bool) \<Rightarrow> jsstring \<Rightarrow> jsstring" where
  "removeSpecial punct s = filter (keepChar punct) s"

definition trim :: "jsstring \<Rightarrow> jsstring" where
  "trim s = rev (dropWhile isSpace (rev (dropWhile isSpace s)))"

definition cleanTranscriptText :: "(nat \<Rightarrow> bool) \<Rightarrow> jsstring \<Rightarrow> jsstring" where
  "cleanTranscriptText punct s = trim (removeSpecial punct (collapseSpaces s))"

subsection \<open>addParagraphBreaks\<close>

definition paragraphBreak :: "nat \<Rightarrow> 'w segment \<Rightarrow> 'w segment \<Rightarrow> 'w segment" where
  "paragraphBreak i currentSegment nextSegment =
     \<lparr>seg_id = Break i, seg_text = [10, 10], startTime = endTime currentSegment,
      endTime = startTime nextSegment, confidence = 1, speaker = ''system'',
      words = None, seg_type = Some ''paragraph_break''\<rparr>"

text \<open>The \<^verbatim>\<open>for\<close> loop over the index \<open>i\<close>, with \<open>processedSegments\<close> as it grows.\<close>

function breaksLoop :: "real \<Rightarrow> 'w segment list \<Rightarrow> nat \<Rightarrow> 'w segment list \<Rightarrow> 'w segment list" where
  "breaksLoop silenceThreshold segs i processedSegments =
     (if i < length segs then
        (if i + 1 < length segs \<and>
            startTime (segs ! (i + 1)) - endTime (segs ! i) > silenceThreshold
         then breaksLoop silenceThreshold segs (i + 1)
                (processedSegments @ [segs ! i] @ [paragraphBreak i (segs ! i) (segs ! (i + 1))])
         else breaksLoop silenceThreshold segs (i + 1) (processedSegments @ [segs ! i]))
      else processedSegments)"
  by pat_completeness auto
termination
  by (relation "measure (\<lambda>(t, segs, i, p). length segs - i)") auto

definition addParagraphBreaks :: "'w segment list \<Rightarrow> real \<Rightarrow> 'w segment list" where
  "addParagraphBreaks segs silenceThreshold = breaksLoop silenceThreshold segs 0 []"

subsection \<open>mergeShortSegments\<close>

definition absorb :: "'w segment \<Rightarrow> 'w segment \<Rightarrow> 'w segment" where
  "absorb currentMerge segment =
     currentMerge\<lparr>seg_text := seg_text currentMerge @ [32] @ seg_text segment,
                  endTime := endTime segment,
                  confidence := (confidence currentMerge + confidence segment) / 2\<rparr>"

text \<open>The \<^verbatim>\<open>for ... of\<close> loop, with \<open>mergedSegments\<close> and \<open>currentMerge\<close> as its state.\<close>

fun mergeLoop :: "real \<Rightarrow> 'w segment list \<Rightarrow> 'w segment list \<Rightarrow> 'w segment option \<Rightarrow> 'w segment list" where
  "mergeLoop minDuration [] mergedSegments currentMerge =
     (case currentMerge of Some c \<Rightarrow> mergedSegments @ [c] | None \<Rightarrow> mergedSegments)"
| "mergeLoop minDuration (segment # rest) mergedSegments currentMerge =
     (if endTime segment - startTime segment < minDuration \<and>
         seg_type segment \<noteq> Some ''paragraph_break''
      then (case currentMerge of
              None \<Rightarrow> mergeLoop minDuration rest mergedSegments (Some segment)
            | Some c \<Rightarrow> mergeLoop minDuration rest mergedSegments (Some (absorb c segment)))
      else (case currentMerge of
              Some c \<Rightarrow> mergeLoop minDuration rest (mergedSegments @ [c] @ [segment]) None
            | None \<Rightarrow> mergeLoop minDuration rest (mergedSegments @ [segment]) None))"

definition mergeShortSegments :: "'w segment list \<Rightarrow> real \<Rightarrow> 'w segment list" where
  "mergeShortSegments segs minDuration = mergeLoop minDuration segs [] None"

text \<open>The same operation in the words of the specification: a run of short segments
  is folded into its first segment, a segment at or above the threshold stands alone.\<close>

definition isShort :: "real \<Rightarrow> 'w segment \<Rightarrow> bool" where
  "isShort minDuration s =
     (endTime s - startTime s < minDuration \<and> seg_type s \<noteq> Some ''paragraph_break'')"

function spec_mergeShort :: "real \<Rightarrow> 'w segment list \<Rightarrow> 'w segment list" where
  "spec_mergeShort minDuration [] = []"
| "spec_mergeShort minDuration (s # ss) =
     (if isShort minDuration s
      then foldl absorb s (takeWhile (isShort minDuration) ss)
             # spec_mergeShort minDuration (dropWhile (isShort minDuration) ss)
      else s # spec_mergeShort minDuration ss)"
  by pat_completeness auto
termination
  by (relation "measure (\<lambda>(m, ss). length ss)") (auto simp: length_dropWhile_le less_Suc_eq_le)

subsection \<open>postProcessTranscription\<close>

text \<open>
  An option is read as \<^verbatim>\<open>options.x !== false\<close>: only an explicit \<^verbatim>\<open>false\<close> switches
  a step off. \<^verbatim>\<open>addPunctuation\<close> returns its argument. The \<^verbatim>\<open>catch\<close> of the function
  returns the original result; with segments that are lists of well-formed segments no
  step throws, so it has no branch here.
\<close>

record post_options =
  opt_cleanText :: "bool option"
  opt_addParagraphs :: "bool option"
  opt_mergeShortSegments :: "bool option"
  opt_addPunctuation :: "bool option"

record 'w transcription =
  segments :: "'w segment list"
  fullText :: jsstring

definition notFalse :: "bool option \<Rightarrow> bool" where
  "notFalse x = (x \<noteq> Some False)"

fun joinSpace :: "jsstring list \<Rightarrow> jsstring" where
  "joinSpace [] = []"
| "joinSpace [s] = s"
| "joinSpace (s # t # rest) = s @ [32] @ joinSpace (t # rest)"

definition addPunctuation :: "'w segment list \<Rightarrow> 'w segment list" where
  "addPunctuation segs = segs"

definition cleanSegment :: "(nat \<Rightarrow> bool) \<Rightarrow> 'w segment \<Rightarrow> 'w segment" where
  "cleanSegment punct segment = segment\<lparr>seg_text := cleanTranscriptText punct (seg_text segment)\<rparr>"

definition postProcessTranscription ::
  "(nat \<Rightarrow> bool) \<Rightarrow> 'w transcription \<Rightarrow> post_options \<Rightarrow> 'w transcription" where
  "postProcessTranscription punct result options =
     (let r1 = (if notFalse (opt_cleanText options)
                then (let cleaned = map (cleanSegment punct) (segments result)
                      in result\<lparr>segments := cleaned, fullText := joinSpace (map seg_text cleaned)\<rparr>)
                else result);
          r2 = (if notFalse (opt_addParagraphs options)
                then r1\<lparr>segments := addParagraphBreaks (segments r1) 3\<rparr> else r1);
          r3 = (if notFalse (opt_mergeShortSegments options)
                then r2\<lparr>segments := mergeShortSegments (segments r2) 2\<rparr> else r2);
          r4 = (if notFalse (opt_addPunctuation options)
                then r3\<lparr>segments := addPunctuation (segments r3)\<rparr> else r3)
      in r4)"

definition defaultOptions :: post_options where
  "defaultOptions = \<lparr>opt_cleanText = None, opt_addParagraphs = None,
                      opt_mergeShortSegments = None, opt_addPunctuation = None\<rparr>"

text \<open>The order the specification gives: clean, merge short segments, insert breaks.\<close>

definition spec_pipeline :: "(nat \<Rightarrow> bool) \<Rightarrow> 'w segment list \<Rightarrow> 'w segment list" where
  "spec_pipeline punct segs =
     addParagraphBreaks (mergeShortSegments (map (cleanSegment punct) segs) 2) 3"

subsection \<open>Auxiliary notions and the example inputs\<close>

text \<open>A string the white-space collapse leaves alone: its only white space is single
  spaces.\<close>

fun collapsed :: "jsstring \<Rightarrow> bool" where
  "collapsed [] = True"
| "collapsed [c] = (isSpace c \<longrightarrow> c = 32)"
| "collapsed (c # d # cs) = ((isSpace c \<longrightarrow> c = 32 \<and> \<not> isSpace d) \<and> collapsed (d # cs))"

text \<open>What follows segment \<open>i\<close> in the output of \<open>addParagraphBreaks\<close>.\<close>

definition breakAfter :: "real \<Rightarrow> 'w segment list \<Rightarrow> nat \<Rightarrow> 'w segment list" where
  "breakAfter silenceThreshold segs i =
     (if Suc i < length segs \<and> startTime (segs ! Suc i) - endTime (segs ! i) > silenceThreshold
      then [paragraphBreak i (segs ! i) (segs ! Suc i)] else [])"

definition timedText :: "'w segment \<Rightarrow> real \<times> real \<times> jsstring" where
  "timedText s = (startTime s, endTime s, seg_text s)"

definition plainSegment :: "nat \<Rightarrow> real \<Rightarrow> real \<Rightarrow> string \<Rightarrow> 'w segment" where
  "plainSegment i s e t =
     \<lparr>seg_id = Index i, seg_text = ustr t, startTime = s, endTime = e, confidence = 4 / 5,
      speaker = ''Speaker 1'', words = Some [], seg_type = None\<rparr>"

text \<open>Example scenario D of the specification.\<close>

definition scenarioD :: "'w segment list" where
  "scenarioD = [plainSegment 0 0 1 ''a'', plainSegment 1 1 (3 / 2) ''b'', plainSegment 2 (3 / 2) 2 ''c'']"

text \<open>Two one-second segments four seconds apart, and two exactly three seconds apart.\<close>

definition longPause :: "'w segment list" where
  "longPause = [plainSegment 0 0 1 ''a'', plainSegment 1 5 6 ''b'']"

definition shortPause :: "'w segment list" where
  "shortPause = [plainSegment 0 0 1 ''a'', plainSegment 1 4 5 ''b'']"

section \<open>Provider responses (services/speechToTextService.js)\<close>

text \<open>
  A raw response is typed as far as the parser relies on it: a property the parser guards
  with \<^verbatim>\<open>||\<close> or \<^verbatim>\<open>?:\<close> is optional, a property it reads unguarded is present. With
  such responses no parser throws, so the \<^verbatim>\<open>catch\<close> of \<open>parseFPTResponse\<close> and of
  \<open>parseWhisperResponse\<close> has no branch. \<^verbatim>\<open>s || 'Speaker 1'\<close> takes the default for a
  missing and for an empty string.
\<close>

definition orSpeaker1 :: "string option \<Rightarrow> string" where
  "orSpeaker1 x = (case x of None \<Rightarrow> ''Speaker 1'' | Some s \<Rightarrow> if s = [] then ''Speaker 1'' else s)"

definition orEmpty :: "'w list option \<Rightarrow> 'w list" where
  "orEmpty x = (case x of None \<Rightarrow> [] | Some ws \<Rightarrow> ws)"

subsection \<open>parseFPTResponse\<close>

record 'w fpt_utterance =
  u_transcript :: jsstring
  u_startTime :: "real option"
  u_endTime :: "real option"
  u_confidence :: "real option"
  u_speaker :: "string option"
  u_words :: "'w list option"

record 'w fpt_hypothesis =
  h_utterances :: "'w fpt_utterance list option"
  h_transcript :: jsstring
  h_confidence :: "real option"

record 'w fpt_data =
  hypotheses :: "'w fpt_hypothesis list option"

definition fptSegment :: "nat \<Rightarrow> 'w fpt_utterance \<Rightarrow> 'w segment" where
  "fptSegment index utterance =
     \<lparr>seg_id = Index index, seg_text = u_transcript utterance,
      startTime = or_default (u_startTime utterance) 0,
      endTime = or_default (u_endTime utterance) 0,
      confidence = or_default (u_confidence utterance) (1 / 2),
      speaker = orSpeaker1 (u_speaker utterance),
      words = Some (orEmpty (u_words utterance)), seg_type = None\<rparr>"

definition parseFPTResponse :: "'w fpt_data \<Rightarrow> 'w segment list" where
  "parseFPTResponse data =
     (case hypotheses data of
        None \<Rightarrow> []
      | Some [] \<Rightarrow> []
      | Some (hypothesis # _) \<Rightarrow>
          (case h_utterances hypothesis of
             Some utterances \<Rightarrow>
               map (\<lambda>index. fptSegment index (utterances ! index)) [0..<length utterances]
           | None \<Rightarrow>
               [\<lparr>seg_id = Index 0, seg_text = h_transcript hypothesis, startTime = 0, endTime = 0,
                 confidence = or_default (h_confidence hypothesis) (1 / 2),
                 speaker = ''Speaker 1'', words = Some [], seg_type = None\<rparr>]))"

subsection \<open>parseWhisperResponse\<close>

record 'w whisper_segment =
  ws_text :: jsstring
  ws_start :: real
  ws_end :: real
  avg_logprob :: "real option"
  ws_words :: "'w list option"

record 'w whisper_data =
  w_segments :: "'w whisper_segment list option"
  w_text :: jsstring

definition whisperSegment :: "nat \<Rightarrow> 'w whisper_segment \<Rightarrow> 'w segment" where
  "whisperSegment index segment =
     \<lparr>seg_id = Index index, seg_text = trim (ws_text segment),
      startTime = ws_start segment, endTime = ws_end segment,
      confidence = (if truthy (avg_logprob segment) then exp (the (avg_logprob segment)) else 4 / 5),
      speaker = ''Speaker 1'', words = Some (orEmpty (ws_words segment)), seg_type = None\<rparr>"

definition parseWhisperResponse :: "'w whisper_data \<Rightarrow> 'w segment list" where
  "parseWhisperResponse data =
     (case w_segments data of
        Some segs \<Rightarrow> map (\<lambda>index. whisperSegment index (segs ! index)) [0..<length segs]
      | None \<Rightarrow>
          [\<lparr>seg_id = Index 0, seg_text = w_text data, startTime = 0, endTime = 0,
            confidence = 4 / 5, speaker = ''Speaker 1'', words = Some [], seg_type = None\<rparr>])"

subsection \<open>parseAzureResult\<close>

text \<open>
  \<^verbatim>\<open>result.json\<close> is \<open>None\<close> when it is missing or the empty string. Otherwise it stands
  for what \<^verbatim>\<open>JSON.parse(result.json).NBest\<close> gives: \<open>Unreadable\<close> when parsing throws or
  there is no \<^verbatim>\<open>NBest\<close> list, else the \<^verbatim>\<open>Confidence\<close> of each entry. Whatever throws
  inside the object literal sends the function to its \<^verbatim>\<open>catch\<close>.
\<close>

datatype azure_detail = Unreadable | NBest "real option list"

record azure_result =
  a_text :: jsstring
  a_offset :: real
  a_duration :: real
  a_json :: "azure_detail option"

record azure_segment =
  az_text :: jsstring
  az_startTime :: real
  az_endTime :: real
  az_confidence :: "real option"
  az_speaker :: string

definition azureFallback :: "azure_result \<Rightarrow> azure_segment" where
  "azureFallback result =
     \<lparr>az_text = a_text result, az_startTime = 0, az_endTime = 0, az_confidence = Some (1 / 2),
      az_speaker = ''Speaker 1''\<rparr>"

definition azureParsed :: "azure_result \<Rightarrow> real option \<Rightarrow> azure_segment" where
  "azureParsed result c =
     \<lparr>az_text = a_text result, az_startTime = a_offset result / 10000000,
      az_endTime = (a_offset result + a_duration result) / 10000000, az_confidence = c,
      az_speaker = ''Speaker 1''\<rparr>"

definition parseAzureResult :: "azure_result \<Rightarrow> azure_segment" where
  "parseAzureResult result =
     (case a_json result of
        None \<Rightarrow> azureParsed result (Some (1 / 2))
      | Some Unreadable \<Rightarrow> azureFallback result
      | Some (NBest []) \<Rightarrow> azureFallback result
      | Some (NBest (best # _)) \<Rightarrow> azureParsed result best)"

text \<open>Example responses, with and without a confidence of their own.\<close>

definition fptSilent :: "'w fpt_data" where
  "fptSilent = \<lparr>hypotheses = Some [\<lparr>h_utterances = Some
      [\<lparr>u_transcript = ustr ''xin chao'', u_startTime = Some 0, u_endTime = Some 2,
        u_confidence = None, u_speaker = None, u_words = None\<rparr>],
      h_transcript = ustr ''xin chao'', h_confidence = None\<rparr>]\<rparr>"

definition whisperScored :: "'w whisper_data" where
  "whisperScored = \<lparr>w_segments = Some
      [\<lparr>ws_text = ustr '' hello '', ws_start = 0, ws_end = 2, avg_logprob = Some (- 1 / 4),
        ws_words = None\<rparr>,
       \<lparr>ws_text = ustr ''world'', ws_start = 2, ws_end = 3, avg_logprob = None,
        ws_words = None\<rparr>],
     w_text = ustr ''hello world''\<rparr>"




definition azureScored :: azure_result where
  "azureScored = \<lparr>a_text = ustr ''hello'', a_offset = 10000000, a_duration = 20000000,
                   a_json = Some (NBest [Some (9 / 10), Some (1 / 10)])\<rparr>"


section \<open>Speaker statistics (models/Transcript.js)\<close>


















section \<open>Transcription jobs (controllers/transcriptionController.js)\<close>

text \<open>
  The state is what the two operations read and write for one meeting: its Transcript
  document (unique per meeting), the job record under the Redis key
  \<^verbatim>\<open>transcription-job:<id>\<close>, the Redis list \<^verbatim>\<open>transcription-queue\<close> and the status of the
  meeting. Four more components only observe the run: \<open>spawned\<close> holds the calls
  \<^verbatim>\<open>this.processTranscriptionJob(jobData)\<close> that \<open>startTranscription\<close> issued,
  \<open>providerCalls\<close> counts the calls of a \<^verbatim>\<open>transcribeWith...\<close> method, and \<open>statusLog\<close>
  and \<open>jobLog\<close> list every value stored in the \<^verbatim>\<open>status\<close> of the document and of the
  job record, in order.

  Every awaited call on the database, Redis or the audio processor may throw: the
  environment of an operation names the first call that does. The statements of the
  \<^verbatim>\<open>catch\<close> blocks themselves are taken not to throw, and each operation runs to its
  end before the next one starts.
\<close>

subsection \<open>The Transcript document and its schema (models/Transcript.js)\<close>

text \<open>
  Of a document only what the two operations and the validation on \<^verbatim>\<open>save()\<close> look at:
  the status, the service, whether \<^verbatim>\<open>language\<close> still is the nested object of the schema
  (it is not once a string was assigned to the path; saving then fails, with a cast error
  or for the missing \<^verbatim>\<open>language.detected\<close>), and whether \<^verbatim>\<open>processing.startedAt\<close>,
  \<^verbatim>\<open>processing.completedAt\<close> and \<^verbatim>\<open>content.fullText\<close> are set. The schema has no path \<^verbatim>\<open>startedAt\<close>, \<^verbatim>\<open>completedAt\<close>,
  \<^verbatim>\<open>text\<close> or \<^verbatim>\<open>error\<close> at the top level: what the controller assigns there is not
  stored.
\<close>

datatype status = Pending | Processing | Completed | Failed | Cancelled

record transcript_doc =
  t_status :: status
  t_service :: string
  t_languageNested :: bool
  t_startedAt :: bool
  t_completedAt :: bool
  t_fullText :: bool

definition serviceEnum :: "string list" where
  "serviceEnum = [''fpt-ai'', ''whisper'', ''google-speech'', ''vosk'', ''azure'', ''aws'']"

definition schemaAccepts :: "transcript_doc \<Rightarrow> bool" where
  "schemaAccepts doc =
     (t_service doc \<in> set serviceEnum \<and> t_languageNested doc \<and>
      (t_status doc = Pending \<or> t_startedAt doc) \<and>
      (t_status doc \<noteq> Completed \<or> (t_completedAt doc \<and> t_fullText doc)))"

record job_data =
  jd_service :: string
  jd_language :: string

record job_record =
  j_status :: status
  j_error :: "string option"

record system =
  transcript :: "transcript_doc option"
  jobRecord :: "job_record option"
  queue :: "job_data list"
  meetingStatus :: string
  spawned :: "job_data list"
  providerCalls :: nat
  statusLog :: "status list"
  jobLog :: "status list"


subsection \<open>startTranscription\<close>

datatype start_call =
  FindMeeting | FindTranscript | FindUser | CountTranscripts | SaveTranscript | SaveMeeting
  | PushQueue | CacheTranscript

text \<open>
  \<open>r_monthLimit\<close> is \<^verbatim>\<open>user.subscription.limits.transcriptionsPerMonth\<close>, \<open>None\<close> when the
  user document has no such value (the User schema declares none); a comparison with
  \<^verbatim>\<open>undefined\<close> is false. A user that is not found makes the read throw.
\<close>

record start_request =
  r_valid :: bool
  r_meetingFound :: bool
  r_fileFound :: bool
  r_userFound :: bool
  r_language :: "string option"
  r_service :: "string option"
  r_fileSize :: real
  r_duration :: real
  r_monthCount :: nat
  r_monthLimit :: "nat option"
  r_services :: "(string \<times> stt_config) list"
  r_throws :: "start_call option"

definition limitReached :: "nat \<Rightarrow> nat option \<Rightarrow> bool" where
  "limitReached n limit = (case limit of None \<Rightarrow> False | Some l \<Rightarrow> l \<le> n)"

text \<open>\<^verbatim>\<open>service || aiServiceManager.getBestSTTService(language, file.size, meeting.duration)\<close>\<close>

definition selectedService :: "start_request \<Rightarrow> string \<Rightarrow> js_error + string" where
  "selectedService r language =
     (case r_service r of
        Some s \<Rightarrow> if s \<noteq> [] then Inr s
                  else getBestSTTService (r_services r) language (r_fileSize r) (r_duration r)
      | None \<Rightarrow> getBestSTTService (r_services r) language (r_fileSize r) (r_duration r))"

text \<open>The document the controller builds: the existing one with three paths assigned,
  or a new one. In both the language is assigned as a string.\<close>

definition submittedDoc :: "transcript_doc option \<Rightarrow> string \<Rightarrow> transcript_doc" where
  "submittedDoc existingTranscript service =
     (case existingTranscript of
        Some t \<Rightarrow> t\<lparr>t_status := Processing, t_service := service, t_languageNested := False\<rparr>
      | None \<Rightarrow> \<lparr>t_status = Processing, t_service = service, t_languageNested = False,
                  t_startedAt = False, t_completedAt = False, t_fullText = False\<rparr>)"

text \<open>From \<^verbatim>\<open>transcript.save()\<close> on: the document is validated and stored, then the
  meeting, the queue entry and the cache, then the response is sent and the job is
  started.\<close>

definition submit :: "start_request \<Rightarrow> string \<Rightarrow> string \<Rightarrow> system \<Rightarrow> nat \<times> system" where
  "submit r service language sys =
     (if r_throws r = Some SaveTranscript
         \<or> \<not> schemaAccepts (submittedDoc (transcript sys) service) then (500, sys)
      else
        (let jobData = \<lparr>jd_service = service, jd_language = language\<rparr>;
             s1 = sys\<lparr>transcript := Some (submittedDoc (transcript sys) service),
                      statusLog := statusLog sys @ [Processing]\<rparr>;
             s2 = s1\<lparr>meetingStatus := ''transcribing''\<rparr>;
             s3 = s2\<lparr>queue := jobData # queue s2\<rparr>
         in if r_throws r = Some SaveMeeting then (500, s1)
            else if r_throws r = Some PushQueue then (500, s2)
            else if r_throws r = Some CacheTranscript then (500, s3)
            else (200, s3\<lparr>spawned := spawned s3 @ [jobData]\<rparr>)))"

definition startTranscription :: "start_request \<Rightarrow> system \<Rightarrow> nat \<times> system" where
  "startTranscription r sys =
     (if \<not> r_valid r then (400, sys)
      else if r_throws r = Some FindMeeting then (500, sys)
      else if \<not> r_meetingFound r then (404, sys)
      else if \<not> r_fileFound r then (404, sys)
      else if r_throws r = Some FindTranscript then (500, sys)
      else if (case transcript sys of Some existing \<Rightarrow> t_status existing \<noteq> Failed | None \<Rightarrow> False)
        then (409, sys)
      else if r_throws r = Some FindUser \<or> r_throws r = Some CountTranscripts \<or> \<not> r_userFound r
        then (500, sys)
      else if limitReached (r_monthCount r) (r_monthLimit r) then (403, sys)
      else
        (let language = (case r_language r of None \<Rightarrow> ''auto'' | Some l \<Rightarrow> l)
         in case selectedService r language of
              Inl e \<Rightarrow> (500, sys)
            | Inr service \<Rightarrow> submit r service language sys))"

subsection \<open>processTranscriptionJob\<close>

datatype proc_call =
  SetJobProcessing | FindTranscriptById | ProcessAudio | SaveResult | UpdateMeeting
  | CacheResult | SetJobCompleted

record proc_env =
  p_throws :: "(proc_call \<times> string) option"

definition thrown :: "proc_env \<Rightarrow> proc_call \<Rightarrow> bool" where
  "thrown env c = (case p_throws env of Some (c', m) \<Rightarrow> c' = c | None \<Rightarrow> False)"

definition message :: "proc_env \<Rightarrow> string" where
  "message env = (case p_throws env of Some (c, m) \<Rightarrow> m | None \<Rightarrow> [])"

text \<open>The keys of \<^verbatim>\<open>sttServices\<close>, which are also the labels of the \<^verbatim>\<open>switch\<close>.
  \<open>getServiceConfig\<close> reads \<^verbatim>\<open>this.sttServices[serviceName]\<close>, so it also finds the names
  a plain object inherits.\<close>

definition sttServiceNames :: "string list" where
  "sttServiceNames = [''fpt'', ''whisper'', ''google'', ''azure'']"

definition getServiceConfig :: "string \<Rightarrow> string + unit" where
  "getServiceConfig serviceName =
     (if serviceName \<in> set sttServiceNames \<or> serviceName \<in> set objectPrototypeKeys then Inr ()
      else Inl (''Service '' @ serviceName @ '' not found in stt services''))"

text \<open>The four \<^verbatim>\<open>transcribeWith...\<close> methods of the controller: each only throws.\<close>

definition placeholderMessage :: "string \<Rightarrow> string" where
  "placeholderMessage service =
     (if service = ''fpt'' then ''FPT transcription not implemented''
      else if service = ''whisper'' then ''Whisper transcription not implemented''
      else if service = ''google'' then ''Google transcription not implemented''
      else ''Azure transcription not implemented'')"

definition transcribeWith :: "string \<Rightarrow> string + unit" where
  "transcribeWith service = Inl (placeholderMessage service)"

definition validationFailed :: string where
  "validationFailed = ''Transcript validation failed''"

text \<open>The \<^verbatim>\<open>try\<close> block after the provider has answered: \<open>Inl\<close> is the message of what
  was thrown and the state then.\<close>

definition completeJob :: "proc_env \<Rightarrow> system \<Rightarrow> (string \<times> system) + system" where
  "completeJob env s2 =
     (let completedDoc = map_option (\<lambda>t. t\<lparr>t_status := Completed\<rparr>) (transcript s2);
          s3 = s2\<lparr>transcript := completedDoc, statusLog := statusLog s2 @ [Completed]\<rparr>;
          s4 = s3\<lparr>meetingStatus := ''transcribed''\<rparr>
      in if thrown env SaveResult then Inl (message env, s2)
         else if \<not> (case completedDoc of Some doc \<Rightarrow> schemaAccepts doc | None \<Rightarrow> False)
           then Inl (validationFailed, s2)
         else if thrown env UpdateMeeting then Inl (message env, s3)
         else if thrown env CacheResult then Inl (message env, s4)
         else if thrown env SetJobCompleted then Inl (message env, s4)
         else Inr (s4\<lparr>jobRecord := Some \<lparr>j_status = Completed, j_error = None\<rparr>,
                       jobLog := jobLog s4 @ [Completed]\<rparr>))"

text \<open>The \<^verbatim>\<open>try\<close> block up to the provider.\<close>

definition tryProcess :: "proc_env \<Rightarrow> job_data \<Rightarrow> system \<Rightarrow> (string \<times> system) + system" where
  "tryProcess env jobData sys =
     (let s1 = sys\<lparr>jobRecord := Some \<lparr>j_status = Processing, j_error = None\<rparr>,
                   jobLog := jobLog sys @ [Processing]\<rparr>;
          s2 = s1\<lparr>providerCalls := providerCalls s1 + 1\<rparr>
      in if thrown env SetJobProcessing then Inl (message env, sys)
         else if thrown env FindTranscriptById then Inl (message env, s1)
         else if transcript s1 = None then Inl (''Transcript record not found'', s1)
         else if thrown env ProcessAudio then Inl (message env, s1)
         else (case getServiceConfig (jd_service jobData) of
                 Inl notFound \<Rightarrow> Inl (notFound, s1)
               | Inr sttConfig \<Rightarrow>
                   if jd_service jobData \<notin> set sttServiceNames
                   then Inl (''Unsupported STT service: '' @ jd_service jobData, s1)
                   else (case transcribeWith (jd_service jobData) of
                           Inl notImplemented \<Rightarrow> Inl (notImplemented, s2)
                         | Inr transcriptionResult \<Rightarrow> completeJob env s2)))"

text \<open>The \<^verbatim>\<open>catch\<close> block; \<^verbatim>\<open>findByIdAndUpdate\<close> stores the status without validation
  and changes nothing when there is no document.\<close>

definition failJob :: "string \<Rightarrow> system \<Rightarrow> system" where
  "failJob msg sys =
     sys\<lparr>transcript := map_option (\<lambda>t. t\<lparr>t_status := Failed\<rparr>) (transcript sys),
         statusLog := (if transcript sys = None then statusLog sys else statusLog sys @ [Failed]),
         jobRecord := Some \<lparr>j_status = Failed, j_error = Some msg\<rparr>,
         jobLog := jobLog sys @ [Failed],
         meetingStatus := ''failed''\<rparr>"

definition processTranscriptionJob :: "proc_env \<Rightarrow> job_data \<Rightarrow> system \<Rightarrow> system" where
  "processTranscriptionJob env jobData sys =
     (case tryProcess env jobData sys of
        Inl (msg, atThrow) \<Rightarrow> failJob msg atThrow
      | Inr done \<Rightarrow> done)"

subsection \<open>Runs of the two operations\<close>

datatype op = Start start_request | Process proc_env job_data

fun step :: "op \<Rightarrow> system \<Rightarrow> system" where
  "step (Start r) sys = snd (startTranscription r sys)"
| "step (Process env jobData) sys = processTranscriptionJob env jobData sys"









definition completedDoc :: transcript_doc where
  "completedDoc = \<lparr>t_status = Completed, t_service = ''fpt-ai'', t_languageNested = True,
                    t_startedAt = True, t_completedAt = True, t_fullText = True\<rparr>"




section \<open>Provider selection: the code against the specification\<close>

lemma suitable_names:
  assumes "\<forall>p \<in> set services. maxDuration (cfg_limits (snd p)) \<noteq> Some 0"
  shows "map name (suitableSTTServices services language fileSize duration)
         = spec_survivors services language fileSize duration"
  using assms
proof (induction services)
  case Nil
  show ?case
    by (simp add: suitableSTTServices_def spec_survivors_def getAvailableSTTServices_def
        spec_within_ceilings_def spec_language_ok_def spec_enabled_def)
next
  case (Cons p ps)
  obtain n c where p: "p = (n, c)" by (cases p)
  from Cons.prems p have nz: "maxDuration (cfg_limits c) \<noteq> Some 0" by simp
  have fit: "(js_le duration (maxDuration (cfg_limits c)) \<or> \<not> truthy (maxDuration (cfg_limits c)))
        = (case maxDuration (cfg_limits c) of None \<Rightarrow> True | Some d \<Rightarrow> duration \<le> d)"
    using nz by (cases "maxDuration (cfg_limits c)") (auto simp: js_le_def truthy_def)
  from Cons have IH: "map name (suitableSTTServices ps language fileSize duration)
         = spec_survivors ps language fileSize duration" by simp
  have step: "suitableSTTServices (p # ps) language fileSize duration =
     (if enabled c \<and> (language \<in> set (cfg_languages c) \<or> ''auto'' \<in> set (cfg_languages c)) \<and>
         fileSize \<le> maxFileSize (cfg_limits c) \<and>
         (js_le duration (maxDuration (cfg_limits c)) \<or> \<not> truthy (maxDuration (cfg_limits c)))
      then [\<lparr>name = n, languages = cfg_languages c, limits = cfg_limits c\<rparr>] else [])
     @ suitableSTTServices ps language fileSize duration"
    by (simp add: p suitableSTTServices_def getAvailableSTTServices_def)
  have step': "spec_survivors (p # ps) language fileSize duration =
     (if enabled c \<and> (language \<in> set (cfg_languages c) \<or> ''auto'' \<in> set (cfg_languages c)) \<and>
         fileSize \<le> maxFileSize (cfg_limits c) \<and>
         (case maxDuration (cfg_limits c) of None \<Rightarrow> True | Some d \<Rightarrow> duration \<le> d)
      then [n] else [])
     @ spec_survivors ps language fileSize duration"
    by (simp add: p spec_survivors_def spec_within_ceilings_def spec_language_ok_def spec_enabled_def)
  show ?case by (simp add: step step' fit IH)
qed

lemma find_name:
  "find (\<lambda>s. name s = n) xs = None \<longleftrightarrow> n \<notin> set (map name xs)"
  by (induction xs) auto

lemma find_name_Some:
  "find (\<lambda>s. name s = n) xs = Some s \<Longrightarrow> name s = n \<and> n \<in> set (map name xs)"
  by (induction xs) (auto split: if_splits)

lemma priorityLoop_spec:
  "priorityLoop ps (s # ss) =
     (case filter (\<lambda>p. p \<in> set (map name (s # ss))) ps of
        [] \<Rightarrow> Inr (name s) | best # _ \<Rightarrow> Inr best)"
proof (induction ps)
  case Nil
  show ?case by simp
next
  case (Cons q qs)
  show ?case
  proof (cases "find (\<lambda>x. name x = q) (s # ss)")
    case None
    then have "q \<notin> set (map name (s # ss))" by (rule iffD1 [OF find_name])
    then have "filter (\<lambda>p. p \<in> set (map name (s # ss))) (q # qs)
             = filter (\<lambda>p. p \<in> set (map name (s # ss))) qs" by simp
    moreover have "priorityLoop (q # qs) (s # ss) = priorityLoop qs (s # ss)"
      using None by simp
    ultimately show ?thesis using Cons by simp
  next
    case (Some x)
    then have x: "name x = q \<and> q \<in> set (map name (s # ss))" by (rule find_name_Some)
    then have "filter (\<lambda>p. p \<in> set (map name (s # ss))) (q # qs)
             = q # filter (\<lambda>p. p \<in> set (map name (s # ss))) qs" by simp
    moreover have "priorityLoop (q # qs) (s # ss) = Inr q"
      using Some x by simp
    ultimately show ?thesis by simp
  qed
qed

lemma sttServices_ceilings:
  "\<forall>p \<in> set (sttServices a b c d). maxDuration (cfg_limits (snd p)) \<noteq> Some 0"
  by (simp add: sttServices_def)

lemma priorityLoop_total: "priorityLoop ps (s # ss) \<noteq> Inl e"
  by (simp add: priorityLoop_spec split: list.splits)

lemma getBestSTTService_spec_general:
  assumes "\<forall>p \<in> set services. maxDuration (cfg_limits (snd p)) \<noteq> Some 0"
  shows "getBestSTTService services language fileSize duration =
     (case spec_selectProvider services language fileSize duration of
        None \<Rightarrow> Inl (Error noSuitableMessage) | Some p \<Rightarrow> Inr p)"
proof -
  let ?suit = "suitableSTTServices services language fileSize duration"
  have names: "map name ?suit = spec_survivors services language fileSize duration"
    using assms by (rule suitable_names)
  show ?thesis
  proof (cases ?suit)
    case Nil
    with names have "spec_survivors services language fileSize duration = []" by simp
    with Nil show ?thesis
      by (simp add: getBestSTTService_def spec_selectProvider_def)
  next
    case (Cons s ss)
    with names have sv: "spec_survivors services language fileSize duration = name s # map name ss"
      by simp
    have "getBestSTTService services language fileSize duration = priorityLoop priorityOrder (s # ss)"
      using Cons by (simp add: getBestSTTService_def)
    also have "\<dots> = (case filter (\<lambda>p. p \<in> set (map name (s # ss))) priorityOrder of
        [] \<Rightarrow> Inr (name s) | best # _ \<Rightarrow> Inr best)"
      by (rule priorityLoop_spec)
    finally show ?thesis
      by (simp add: spec_selectProvider_def sv split: list.splits)
  qed
qed

text \<open>
  C3. For every language, file size and duration, \<open>getBestSTTService\<close> returns what
  the specification's rule returns: keep the enabled providers, of those the ones whose
  language list has the language or \<open>auto\<close>, of those the ones whose size and duration
  ceilings are not exceeded, then the first name of \<open>[fpt, whisper, google, azure]\<close>
  that survived, and the first survivor when no priority name survived; with no survivor
  it throws. This holds for the registry of the program, however its four providers are
  enabled, and for any other registry in which no provider has a duration ceiling of
  zero (the code reads the ceiling through \<^verbatim>\<open>!limits.maxDuration\<close>, so a ceiling of zero
  would count as none).
\<close>

theorem getBestSTTService_refines_spec:
  "getBestSTTService (sttServices fptOn whisperOn googleOn azureOn) language fileSize duration =
     (case spec_selectProvider (sttServices fptOn whisperOn googleOn azureOn) language fileSize duration of
        None \<Rightarrow> Inl (Error noSuitableMessage) | Some p \<Rightarrow> Inr p) \<and>
   ((\<forall>p \<in> set services. maxDuration (cfg_limits (snd p)) \<noteq> Some 0) \<longrightarrow>
    getBestSTTService services language fileSize duration =
     (case spec_selectProvider services language fileSize duration of
        None \<Rightarrow> Inl (Error noSuitableMessage) | Some p \<Rightarrow> Inr p))"
  using getBestSTTService_spec_general [OF sttServices_ceilings]
    getBestSTTService_spec_general [of services]
  by blast

theorem getBestSTTService_refines_spec_witness:
  "getBestSTTService (sttServices False True True True) ''vi-VN'' (30 * 1024 * 1024) 60 = Inr ''google'' \<and>
   spec_selectProvider (sttServices False True True True) ''vi-VN'' (30 * 1024 * 1024) 60 = Some ''google''"
proof -
  have s: "spec_selectProvider (sttServices False True True True) ''vi-VN'' (30 * 1024 * 1024) 60
           = Some ''google''"
    by (simp add: spec_selectProvider_def spec_survivors_def spec_within_ceilings_def
        spec_language_ok_def spec_enabled_def sttServices_def mainLanguages_def priorityOrder_def)
  have "getBestSTTService (sttServices False True True True) ''vi-VN'' (30 * 1024 * 1024) 60 =
     (case spec_selectProvider (sttServices False True True True) ''vi-VN'' (30 * 1024 * 1024) 60 of
        None \<Rightarrow> Inl (Error noSuitableMessage) | Some p \<Rightarrow> Inr p)"
    using sttServices_ceilings [of False True True True]
      getBestSTTService_refines_spec [of False True True True "''vi-VN''" "30 * 1024 * 1024" 60
        "sttServices False True True True"]
    by blast
  with s show ?thesis by simp
qed

text \<open>
  C8, as the code has it. When no provider survives the filters, \<open>getBestSTTService\<close>
  throws the one generic \<open>Error\<close> with a fixed message, whatever filter removed the last
  provider; and it throws nothing else.
\<close>

theorem getBestSTTService_generic_error:
  "(suitableSTTServices services language fileSize duration = [] \<longrightarrow>
      getBestSTTService services language fileSize duration = Inl (Error noSuitableMessage)) \<and>
   (getBestSTTService services language fileSize duration = Inl e \<longrightarrow>
      e = Error noSuitableMessage \<and>
      suitableSTTServices services language fileSize duration = [])"
proof (cases "suitableSTTServices services language fileSize duration")
  case Nil
  then show ?thesis by (simp add: getBestSTTService_def)
next
  case (Cons s ss)
  then have "getBestSTTService services language fileSize duration = priorityLoop priorityOrder (s # ss)"
    by (simp add: getBestSTTService_def)
  then show ?thesis using Cons priorityLoop_total [of priorityOrder s ss e] by simp
qed

theorem getBestSTTService_generic_error_witness:
  "suitableSTTServices (sttServices True False False False) ''fr'' 0 0 = [] \<and>
   getBestSTTService (sttServices True False False False) ''fr'' 0 0 = Inl (Error noSuitableMessage)"
proof -
  have h: "suitableSTTServices (sttServices True False False False) ''fr'' 0 0 = []"
    by (simp add: suitableSTTServices_def getAvailableSTTServices_def sttServices_def)
  show ?thesis
    using h getBestSTTService_generic_error [of "sttServices True False False False" "''fr''" 0 0]
    by blast
qed

text \<open>
  C8, as the claim states it, fails: with only \<open>fpt\<close> enabled, an unsupported language,
  a file over the size ceiling and a recording over the duration ceiling all raise the
  same error value, so the error cannot tell the three reasons apart.
\<close>

theorem getBestSTTService_reason_counterexample:
  "getBestSTTService (sttServices True False False False) ''fr'' 0 0 = Inl (Error noSuitableMessage) \<and>
   spec_filteringReason (sttServices True False False False) ''fr'' 0 0 = Some UnsupportedLanguage \<and>
   getBestSTTService (sttServices True False False False) ''vi-VN'' (200 * 1024 * 1024) 0
     = Inl (Error noSuitableMessage) \<and>
   spec_filteringReason (sttServices True False False False) ''vi-VN'' (200 * 1024 * 1024) 0
     = Some FileTooLarge \<and>
   getBestSTTService (sttServices True False False False) ''vi-VN'' 0 7200
     = Inl (Error noSuitableMessage) \<and>
   spec_filteringReason (sttServices True False False False) ''vi-VN'' 0 7200
     = Some DurationTooLong"
proof -
  let ?fptOnly = "sttServices True False False False"
  have a: "getBestSTTService ?fptOnly ''fr'' 0 0 = Inl (Error noSuitableMessage)"
    by (simp add: getBestSTTService_def suitableSTTServices_def getAvailableSTTServices_def
        sttServices_def)
  have b: "spec_filteringReason ?fptOnly ''fr'' 0 0 = Some UnsupportedLanguage"
    by (simp add: sttServices_def spec_filteringReason_def spec_language_ok_def spec_enabled_def)
  have c: "getBestSTTService ?fptOnly ''vi-VN'' (200 * 1024 * 1024) 0 = Inl (Error noSuitableMessage)"
    by (simp add: getBestSTTService_def suitableSTTServices_def getAvailableSTTServices_def
        sttServices_def)
  have d: "spec_filteringReason ?fptOnly ''vi-VN'' (200 * 1024 * 1024) 0 = Some FileTooLarge"
    by (simp add: sttServices_def spec_filteringReason_def spec_language_ok_def spec_enabled_def)
  have e: "getBestSTTService ?fptOnly ''vi-VN'' 0 7200 = Inl (Error noSuitableMessage)"
    by (simp add: getBestSTTService_def suitableSTTServices_def getAvailableSTTServices_def
        sttServices_def js_le_def truthy_def)
  have f: "spec_filteringReason ?fptOnly ''vi-VN'' 0 7200 = Some DurationTooLong"
    by (simp add: sttServices_def spec_filteringReason_def spec_language_ok_def spec_enabled_def
        spec_within_ceilings_def)
  from a b c d e f show ?thesis by blast
qed

section \<open>Post-processing: the loops against their descriptions\<close>

subsection \<open>mergeShortSegments\<close>

lemma mergeLoop_spec:
  "mergeLoop m segs merged cur =
     merged @ (case cur of
                 None \<Rightarrow> spec_mergeShort m segs
               | Some c \<Rightarrow> foldl absorb c (takeWhile (isShort m) segs)
                            # spec_mergeShort m (dropWhile (isShort m) segs))"
proof (induction segs arbitrary: merged cur)
  case Nil
  show ?case by (simp split: option.splits)
next
  case (Cons s ss)
  show ?case
  proof (cases "isShort m s")
    case True
    then have short: "endTime s - startTime s < m \<and> seg_type s \<noteq> Some ''paragraph_break''"
      by (simp add: isShort_def)
    show ?thesis
    proof (cases cur)
      case None
      with short True show ?thesis by (simp add: Cons.IH)
    next
      case (Some c)
      with short True show ?thesis by (simp add: Cons.IH)
    qed
  next
    case False
    then have long: "\<not> (endTime s - startTime s < m \<and> seg_type s \<noteq> Some ''paragraph_break'')"
      by (simp add: isShort_def)
    show ?thesis
    proof (cases cur)
      case None
      with long False show ?thesis by (auto simp add: Cons.IH)
    next
      case (Some c)
      with long False show ?thesis by (auto simp add: Cons.IH)
    qed
  qed
qed

lemma scenarioD_merged:
  "map timedText (mergeShortSegments (scenarioD :: 'w segment list) 1)
     = [(0, 1, ustr ''a''), (1, 2, ustr ''b c'')]"
  by (simp add: mergeShortSegments_def scenarioD_def plainSegment_def absorb_def timedText_def
      ustr_def)

text \<open>
  C4, as the code has it. \<open>mergeShortSegments\<close> folds every maximal run of consecutive
  segments that are shorter than \<open>minDuration\<close> and are not paragraph-break markers into
  the first segment of the run: each further segment appends a space and its text,
  replaces the end time, and replaces the confidence by the mean of the running
  confidence and its own. A segment at or above the threshold, or a marker, closes the
  run and is passed on unchanged. In scenario D the first segment lasts exactly the
  threshold, so it stays alone and only the last two are merged.
\<close>

theorem mergeShortSegments_coalesces:
  "mergeShortSegments segs minDuration = spec_mergeShort minDuration segs \<and>
   seg_text (absorb c s) = seg_text c @ [32] @ seg_text s \<and>
   startTime (absorb c s) = startTime c \<and>
   endTime (absorb c s) = endTime s \<and>
   confidence (absorb c s) = (confidence c + confidence s) / 2 \<and>
   map timedText (mergeShortSegments (scenarioD :: unit segment list) 1)
     = [(0, 1, ustr ''a''), (1, 2, ustr ''b c'')]"
proof -
  have "mergeShortSegments segs minDuration = spec_mergeShort minDuration segs"
    by (simp add: mergeShortSegments_def mergeLoop_spec)
  moreover have "seg_text (absorb c s) = seg_text c @ [32] @ seg_text s"
    and "startTime (absorb c s) = startTime c"
    and "endTime (absorb c s) = endTime s"
    and "confidence (absorb c s) = (confidence c + confidence s) / 2"
    by (simp_all add: absorb_def)
  ultimately show ?thesis using scenarioD_merged [where ?'w = unit] by blast
qed

theorem mergeShortSegments_coalesces_witness:
  "mergeShortSegments (scenarioD :: unit segment list) 1 = spec_mergeShort 1 scenarioD \<and>
   map timedText (mergeShortSegments (scenarioD :: unit segment list) 1)
     = [(0, 1, ustr ''a''), (1, 2, ustr ''b c'')]"
  using mergeShortSegments_coalesces [of "scenarioD :: unit segment list" 1] by blast

text \<open>
  C4, as the claim states it, fails on its own example: scenario D does not come out as
  the single segment from 0 to 2 with the text ``a b c''.
\<close>

theorem mergeShortSegments_scenarioD_counterexample:
  "map timedText (mergeShortSegments (scenarioD :: unit segment list) 1) \<noteq> [(0, 2, ustr ''a b c'')]"
  by (simp add: scenarioD_merged)

subsection \<open>addParagraphBreaks\<close>

lemma breaksLoop_spec:
  "i \<le> length segs \<Longrightarrow>
   breaksLoop thr segs i acc =
     acc @ concat (map (\<lambda>j. segs ! j # breakAfter thr segs j) [i..<length segs])"
proof (induction thr segs i acc rule: breaksLoop.induct)
  case (1 thr segs i acc)
  show ?case
  proof (cases "i < length segs")
    case False
    with "1.prems" have "i = length segs" by simp
    then show ?thesis by simp
  next
    case True
    then have up: "[i..<length segs] = i # [Suc i..<length segs]"
      by (simp add: upt_conv_Cons)
    show ?thesis
    proof (cases "i + 1 < length segs \<and> startTime (segs ! (i + 1)) - endTime (segs ! i) > thr")
      case yes: True
      then have "breaksLoop thr segs i acc =
          breaksLoop thr segs (i + 1) (acc @ [segs ! i] @ [paragraphBreak i (segs ! i) (segs ! (i + 1))])"
        using True by (subst breaksLoop.simps) simp
      also have "\<dots> = (acc @ [segs ! i] @ [paragraphBreak i (segs ! i) (segs ! (i + 1))])
            @ concat (map (\<lambda>j. segs ! j # breakAfter thr segs j) [i + 1..<length segs])"
        using True yes by (intro "1.IH"(1)) simp_all
      finally show ?thesis using yes by (simp add: up breakAfter_def)
    next
      case no: False
      then have "breaksLoop thr segs i acc = breaksLoop thr segs (i + 1) (acc @ [segs ! i])"
        using True by (subst breaksLoop.simps) auto
      also have "\<dots> = (acc @ [segs ! i])
            @ concat (map (\<lambda>j. segs ! j # breakAfter thr segs j) [i + 1..<length segs])"
        using True no by (intro "1.IH"(2)) simp_all
      finally show ?thesis using no by (auto simp add: up breakAfter_def)
    qed
  qed
qed

lemma longPause_breaks:
  "addParagraphBreaks (longPause :: 'w segment list) 3 =
     [plainSegment 0 0 1 ''a'',
      paragraphBreak 0 (plainSegment 0 0 1 ''a'') (plainSegment 1 5 6 ''b''),
      plainSegment 1 5 6 ''b'']"
  by (simp add: addParagraphBreaks_def longPause_def plainSegment_def)

lemma shortPause_breaks: "addParagraphBreaks (shortPause :: 'w segment list) 3 = shortPause"
  by (simp add: addParagraphBreaks_def shortPause_def plainSegment_def)

text \<open>
  C7, as the code has it. The output of \<open>addParagraphBreaks\<close> is the input with, after
  each segment \<open>i\<close> that has a successor starting more than the threshold after its end,
  one marker: its type is \<open>paragraph_break\<close>, it starts at the end of segment \<open>i\<close> and
  ends at the start of segment \<open>i + 1\<close>, and its text is the two line feeds \<^verbatim>\<open>\n\n\<close>.
  Nothing is inserted after a segment whose gap does not exceed the threshold.
\<close>

theorem addParagraphBreaks_inserts_markers:
  "addParagraphBreaks segs silenceThreshold =
     concat (map (\<lambda>i. segs ! i # breakAfter silenceThreshold segs i) [0..<length segs]) \<and>
   breakAfter silenceThreshold segs i =
     (if Suc i < length segs \<and> silenceThreshold < startTime (segs ! Suc i) - endTime (segs ! i)
      then [paragraphBreak i (segs ! i) (segs ! Suc i)] else []) \<and>
   seg_type (paragraphBreak i c n) = Some ''paragraph_break'' \<and>
   startTime (paragraphBreak i c n) = endTime c \<and>
   endTime (paragraphBreak i c n) = startTime n \<and>
   seg_text (paragraphBreak i c n) = [10, 10]"
proof -
  have "addParagraphBreaks segs silenceThreshold =
     concat (map (\<lambda>i. segs ! i # breakAfter silenceThreshold segs i) [0..<length segs])"
    using breaksLoop_spec [of 0 segs silenceThreshold "[]"] by (simp add: addParagraphBreaks_def)
  moreover have "breakAfter silenceThreshold segs i =
     (if Suc i < length segs \<and> silenceThreshold < startTime (segs ! Suc i) - endTime (segs ! i)
      then [paragraphBreak i (segs ! i) (segs ! Suc i)] else [])"
    by (simp add: breakAfter_def)
  moreover have "seg_type (paragraphBreak i c n) = Some ''paragraph_break''"
    and "startTime (paragraphBreak i c n) = endTime c"
    and "endTime (paragraphBreak i c n) = startTime n"
    and "seg_text (paragraphBreak i c n) = [10, 10]"
    by (simp_all add: paragraphBreak_def)
  ultimately show ?thesis by blast
qed

theorem addParagraphBreaks_inserts_markers_witness:
  "addParagraphBreaks (longPause :: unit segment list) 3 =
     concat (map (\<lambda>i. longPause ! i # breakAfter 3 longPause i) [0..<length (longPause :: unit segment list)]) \<and>
   addParagraphBreaks (longPause :: unit segment list) 3 =
     [plainSegment 0 0 1 ''a'',
      paragraphBreak 0 (plainSegment 0 0 1 ''a'') (plainSegment 1 5 6 ''b''),
      plainSegment 1 5 6 ''b''] \<and>
   addParagraphBreaks (shortPause :: unit segment list) 3 = shortPause"
  using addParagraphBreaks_inserts_markers [of "longPause :: unit segment list" 3]
    longPause_breaks [where ?'w = unit] shortPause_breaks [where ?'w = unit]
  by blast

text \<open>
  C7, as the claim states it, fails in its last part: the marker inserted into the four
  second pause carries a text, the string of two line feeds.
\<close>

theorem addParagraphBreaks_marker_text_counterexample:
  "seg_type (addParagraphBreaks (longPause :: unit segment list) 3 ! 1) = Some ''paragraph_break'' \<and>
   seg_text (addParagraphBreaks (longPause :: unit segment list) 3 ! 1) = [10, 10] \<and>
   seg_text (addParagraphBreaks (longPause :: unit segment list) 3 ! 1) \<noteq> []"
  by (simp add: longPause_breaks paragraphBreak_def)

subsection \<open>cleanTranscriptText\<close>

lemma isSpace_32: "isSpace 32"
  by (simp add: isSpace_def)

lemma collapseSpaces_hd:
  "xs \<noteq> [] \<Longrightarrow> \<not> isSpace (hd xs) \<Longrightarrow> collapseSpaces xs = hd xs # collapseSpaces (tl xs)"
  by (cases xs) simp_all

lemma collapsed_Cons:
  "collapsed (c # xs) = ((isSpace c \<longrightarrow> c = 32 \<and> (xs \<noteq> [] \<longrightarrow> \<not> isSpace (hd xs))) \<and> collapsed xs)"
  by (cases xs) auto

lemma collapsed_collapseSpaces: "collapsed (collapseSpaces s)"
proof (induction s rule: collapseSpaces.induct)
  case 1
  show ?case by simp
next
  case (2 c cs)
  show ?case
  proof (cases "isSpace c")
    case True
    let ?r = "dropWhile isSpace cs"
    have rest: "collapsed (collapseSpaces ?r)" using True "2.IH"(1) by simp
    have "collapseSpaces ?r \<noteq> [] \<longrightarrow> \<not> isSpace (hd (collapseSpaces ?r))"
    proof (cases "?r = []")
      case True
      then have "collapseSpaces ?r = collapseSpaces []" by (rule arg_cong)
      then show ?thesis by (simp only: collapseSpaces.simps) simp
    next
      case False
      then have nh: "\<not> isSpace (hd ?r)" by (rule hd_dropWhile)
      with False have "collapseSpaces ?r = hd ?r # collapseSpaces (tl ?r)"
        by (rule collapseSpaces_hd)
      with nh show ?thesis by simp
    qed
    with rest True show ?thesis by (simp add: collapsed_Cons)
  next
    case False
    with "2.IH"(2) show ?thesis by (simp add: collapsed_Cons)
  qed
qed

lemma collapseSpaces_fixed: "collapsed xs \<Longrightarrow> collapseSpaces xs = xs"
proof (induction xs rule: collapseSpaces.induct)
  case 1
  show ?case by simp
next
  case (2 c cs)
  from "2.prems" have tail: "collapsed cs" by (simp add: collapsed_Cons)
  show ?case
  proof (cases "isSpace c")
    case True
    with "2.prems" have c: "c = 32" and nxt: "cs \<noteq> [] \<longrightarrow> \<not> isSpace (hd cs)"
      by (simp_all add: collapsed_Cons)
    from nxt have "cs = [] \<or> \<not> isSpace (hd cs)" by blast
    then have "dropWhile isSpace cs = cs" by (simp only: dropWhile_eq_self_iff)
    with True c tail "2.IH"(1) show ?thesis by simp
  next
    case False
    with tail "2.IH"(2) show ?thesis by simp
  qed
qed

lemma collapsed_append_left: "collapsed (xs @ ys) \<Longrightarrow> collapsed xs"
proof (induction xs)
  case Nil
  show ?case by simp
next
  case (Cons c cs)
  then show ?case by (cases cs) (auto simp: collapsed_Cons)
qed

lemma collapsed_append_right: "collapsed (xs @ ys) \<Longrightarrow> collapsed ys"
  by (induction xs) (auto simp: collapsed_Cons)

lemma trim_split: "\<exists>pre suf. s = pre @ trim s @ suf"
proof -
  let ?d = "dropWhile isSpace s"
  have a: "s = takeWhile isSpace s @ ?d" by simp
  have "rev ?d = takeWhile isSpace (rev ?d) @ dropWhile isSpace (rev ?d)" by simp
  then have "rev (rev ?d) = rev (takeWhile isSpace (rev ?d) @ dropWhile isSpace (rev ?d))"
    by (rule arg_cong)
  then have b: "?d = trim s @ rev (takeWhile isSpace (rev ?d))"
    unfolding trim_def by (simp only: rev_append rev_rev_ident)
  from a b have "s = takeWhile isSpace s @ trim s @ rev (takeWhile isSpace (rev ?d))"
    by simp
  then show ?thesis by blast
qed

lemma collapsed_trim: "collapsed s \<Longrightarrow> collapsed (trim s)"
proof -
  assume c: "collapsed s"
  obtain pre suf where s: "s = pre @ trim s @ suf" using trim_split by blast
  with c have "collapsed (pre @ trim s @ suf)" by simp
  then have "collapsed (trim s @ suf)" by (rule collapsed_append_right)
  then show ?thesis by (rule collapsed_append_left)
qed

lemma set_trim: "set (trim s) \<subseteq> set s"
proof -
  obtain pre suf where s: "s = pre @ trim s @ suf" using trim_split by blast
  have "set (trim s) \<subseteq> set (pre @ trim s @ suf)" by auto
  with s show ?thesis by simp
qed

lemma trim_trim: "trim (trim s) = trim s"
proof -
  let ?d = "dropWhile isSpace s"
  let ?e = "dropWhile isSpace (rev ?d)"
  have t: "trim s = rev ?e" by (simp add: trim_def)
  have front: "dropWhile isSpace (rev ?e) = rev ?e"
  proof (cases "?e = []")
    case True
    then have "rev ?e = []" by (simp only: rev.simps)
    then show ?thesis by (simp only: dropWhile.simps)
  next
    case False
    have dne: "?d \<noteq> []"
    proof
      assume a: "?d = []"
      have "?e = []" unfolding a by simp
      with False show False by (rule notE)
    qed
    then have dh: "\<not> isSpace (hd ?d)" by (rule hd_dropWhile)
    obtain k where k: "?e = drop k (rev ?d)"
      using dropWhile_eq_drop by blast
    have "rev ?e = take (length ?d - k) ?d"
      by (simp add: k rev_drop)
    moreover have "rev ?e \<noteq> []" using False by simp
    ultimately have "hd (rev ?e) = hd ?d"
      by (metis hd_take take_eq_Nil zero_less_iff_neq_zero)
    with dh have "\<not> isSpace (hd (rev ?e))" by simp
    then show ?thesis by (simp add: dropWhile_eq_self_iff)
  qed
  show ?thesis
    unfolding t by (simp add: trim_def front)
qed

lemma set_collapseSpaces: "c \<in> set (collapseSpaces s) \<Longrightarrow> c \<in> set s \<or> c = 32"
proof (induction s rule: collapseSpaces.induct)
  case 1
  then show ?case by simp
next
  case (2 d ds)
  show ?case
  proof (cases "isSpace d")
    case True
    with "2.prems" have "c = 32 \<or> c \<in> set (collapseSpaces (dropWhile isSpace ds))" by auto
    with True "2.IH"(1) have "c = 32 \<or> c \<in> set (dropWhile isSpace ds)" by auto
    then show ?thesis using set_dropWhileD by fastforce
  next
    case False
    with "2.prems" "2.IH"(2) show ?thesis by auto
  qed
qed

lemma keepChar_32: "keepChar punct 32"
  by (simp add: keepChar_def isSpace_32)

lemma clean_fixed:
  assumes "\<forall>c \<in> set s. keepChar punct c"
  shows "cleanTranscriptText punct (cleanTranscriptText punct s) = cleanTranscriptText punct s"
proof -
  have kept: "\<forall>c \<in> set (collapseSpaces s). keepChar punct c"
    using assms set_collapseSpaces keepChar_32 by blast
  then have rs: "removeSpecial punct (collapseSpaces s) = collapseSpaces s"
    by (simp add: removeSpecial_def)
  let ?t = "trim (collapseSpaces s)"
  have t: "cleanTranscriptText punct s = ?t"
    by (simp add: cleanTranscriptText_def rs)
  have "collapsed ?t" by (intro collapsed_trim collapsed_collapseSpaces)
  then have c2: "collapseSpaces ?t = ?t" by (rule collapseSpaces_fixed)
  have "\<forall>c \<in> set ?t. keepChar punct c" using kept set_trim by blast
  then have r2: "removeSpecial punct ?t = ?t" by (simp add: removeSpecial_def)
  show ?thesis
    unfolding t by (simp add: cleanTranscriptText_def c2 r2 trim_trim)
qed

lemma clean_kept: "\<forall>c \<in> set (cleanTranscriptText punct s). keepChar punct c"
proof -
  have "set (cleanTranscriptText punct s) \<subseteq> set (removeSpecial punct (collapseSpaces s))"
    unfolding cleanTranscriptText_def by (rule set_trim)
  then show ?thesis by (auto simp: removeSpecial_def)
qed

lemma clean_plus: "cleanTranscriptText asciiPunctuation (ustr ''a + b'') = ustr ''a  b''"
  by (simp add: cleanTranscriptText_def removeSpecial_def keepChar_def trim_def ustr_def
      isSpace_def isWord_def asciiPunctuation_def)

lemma clean_two_spaces: "cleanTranscriptText asciiPunctuation (ustr ''a  b'') = ustr ''a b''"
  by (simp add: cleanTranscriptText_def removeSpecial_def keepChar_def trim_def ustr_def
      isSpace_def isWord_def asciiPunctuation_def)

text \<open>
  Where the function is idempotent: on every string made of word characters, white
  space and punctuation only, and, since every output is such a string, from the second
  cleaning on. The punctuation table is arbitrary.
\<close>

lemma cleanTranscriptText_idempotent_on_kept:
  "((\<forall>c \<in> set s. keepChar punct c) \<longrightarrow>
      cleanTranscriptText punct (cleanTranscriptText punct s) = cleanTranscriptText punct s) \<and>
   cleanTranscriptText punct (cleanTranscriptText punct (cleanTranscriptText punct s))
     = cleanTranscriptText punct (cleanTranscriptText punct s)"
proof -
  have "cleanTranscriptText punct (cleanTranscriptText punct (cleanTranscriptText punct s))
     = cleanTranscriptText punct (cleanTranscriptText punct s)"
    using clean_kept by (rule clean_fixed)
  then show ?thesis using clean_fixed by blast
qed

text \<open>
  C10. Text cleaning should be idempotent, and the source comments its first step
  ``Multiple spaces to single space''; the code misses both on \<open>a + b\<close>. The white space
  is collapsed before the plus sign is removed, so the result \<open>a  b\<close> has two spaces
  side by side, and cleaning it again gives \<open>a b\<close>.
\<close>

theorem cleanTranscriptText_leaves_two_spaces:
  "cleanTranscriptText asciiPunctuation (ustr ''a + b'') = ustr ''a  b'' \<and>
   cleanTranscriptText asciiPunctuation (cleanTranscriptText asciiPunctuation (ustr ''a + b''))
     = ustr ''a b'' \<and>
   cleanTranscriptText asciiPunctuation (cleanTranscriptText asciiPunctuation (ustr ''a + b''))
     \<noteq> cleanTranscriptText asciiPunctuation (ustr ''a + b'')"
proof -
  have "ustr ''a b'' \<noteq> ustr ''a  b''" by (simp add: ustr_def)
  then show ?thesis by (simp only: clean_plus clean_two_spaces not_False_eq_True simp_thms)
qed

subsection \<open>postProcessTranscription\<close>

lemma long_segment_kept:
  "s \<in> set ss \<Longrightarrow> \<not> isShort m s \<Longrightarrow> s \<in> set (spec_mergeShort m ss)"
proof (induction m ss rule: spec_mergeShort.induct)
  case (1 m)
  then show ?case by simp
next
  case (2 m x xs)
  show ?case
  proof (cases "isShort m x")
    case True
    with "2.prems" have "s \<in> set xs" by auto
    then have "s \<in> set (takeWhile (isShort m) xs @ dropWhile (isShort m) xs)" by simp
    then have "s \<in> set (takeWhile (isShort m) xs) \<or> s \<in> set (dropWhile (isShort m) xs)"
      by (simp only: set_append Un_iff)
    moreover have "s \<notin> set (takeWhile (isShort m) xs)"
      using "2.prems"(2) set_takeWhileD by fastforce
    ultimately have "s \<in> set (dropWhile (isShort m) xs)" by blast
    with True "2.IH"(1) "2.prems"(2) show ?thesis by simp
  next
    case False
    with "2.IH"(2) "2.prems" show ?thesis by auto
  qed
qed

lemma longPause_processed:
  "segments (postProcessTranscription asciiPunctuation
      \<lparr>segments = (longPause :: 'w segment list), fullText = []\<rparr> defaultOptions)
   = [plainSegment 0 0 1 ''a'',
      paragraphBreak 0 (plainSegment 0 0 1 ''a'') (plainSegment 1 5 6 ''b''),
      plainSegment 1 5 6 ''b'']"
  by (simp add: postProcessTranscription_def defaultOptions_def notFalse_def Let_def
      cleanSegment_def addParagraphBreaks_def longPause_def plainSegment_def
      mergeShortSegments_def addPunctuation_def paragraphBreak_def cleanTranscriptText_def
      removeSpecial_def keepChar_def trim_def ustr_def isSpace_def isWord_def
      asciiPunctuation_def)

lemma longPause_spec_order:
  "map timedText (spec_pipeline asciiPunctuation (longPause :: 'w segment list))
     = [(0, 6, ustr ''a b'')]"
  by (simp add: spec_pipeline_def cleanSegment_def absorb_def timedText_def
      addParagraphBreaks_def longPause_def plainSegment_def mergeShortSegments_def
      paragraphBreak_def cleanTranscriptText_def removeSpecial_def keepChar_def trim_def
      ustr_def isSpace_def isWord_def asciiPunctuation_def)

text \<open>
  C6, as the code has it. With the default options \<open>postProcessTranscription\<close> cleans
  the text of every segment, then inserts the paragraph breaks (threshold 3), then
  merges the short segments (threshold 2) of the list that already holds the markers;
  it computes no metrics. Every marker that was inserted is still in the result.
\<close>

theorem postProcessTranscription_order:
  "segments (postProcessTranscription punct result defaultOptions) =
     mergeShortSegments (addParagraphBreaks (map (cleanSegment punct) (segments result)) 3) 2 \<and>
   (\<forall>marker \<in> set (addParagraphBreaks (map (cleanSegment punct) (segments result)) 3).
      seg_type marker = Some ''paragraph_break'' \<longrightarrow>
      marker \<in> set (segments (postProcessTranscription punct result defaultOptions)))"
proof -
  let ?withBreaks = "addParagraphBreaks (map (cleanSegment punct) (segments result)) 3"
  have order: "segments (postProcessTranscription punct result defaultOptions) =
     mergeShortSegments ?withBreaks 2"
    by (simp add: postProcessTranscription_def defaultOptions_def notFalse_def Let_def
        addPunctuation_def)
  have "marker \<in> set (mergeShortSegments ?withBreaks 2)"
    if "marker \<in> set ?withBreaks" and "seg_type marker = Some ''paragraph_break''" for marker
  proof -
    from that(2) have "\<not> isShort 2 marker" by (simp add: isShort_def)
    with that(1) have "marker \<in> set (spec_mergeShort 2 ?withBreaks)" by (rule long_segment_kept)
    then show ?thesis by (simp add: mergeShortSegments_def mergeLoop_spec)
  qed
  with order show ?thesis by simp
qed

theorem postProcessTranscription_order_witness:
  "segments (postProcessTranscription asciiPunctuation
      \<lparr>segments = (longPause :: unit segment list), fullText = []\<rparr> defaultOptions)
   = mergeShortSegments (addParagraphBreaks (map (cleanSegment asciiPunctuation) longPause) 3) 2 \<and>
   segments (postProcessTranscription asciiPunctuation
      \<lparr>segments = (longPause :: unit segment list), fullText = []\<rparr> defaultOptions)
   = [plainSegment 0 0 1 ''a'',
      paragraphBreak 0 (plainSegment 0 0 1 ''a'') (plainSegment 1 5 6 ''b''),
      plainSegment 1 5 6 ''b'']"
proof -
  have "segments (postProcessTranscription asciiPunctuation
      \<lparr>segments = (longPause :: unit segment list), fullText = []\<rparr> defaultOptions)
   = mergeShortSegments (addParagraphBreaks (map (cleanSegment asciiPunctuation)
        (segments \<lparr>segments = (longPause :: unit segment list), fullText = []\<rparr>)) 3) 2"
    using postProcessTranscription_order
      [of asciiPunctuation "\<lparr>segments = (longPause :: unit segment list), fullText = []\<rparr>"]
    by blast
  then show ?thesis using longPause_processed [where ?'w = unit] by simp
qed

text \<open>
  C6, as the claim states it, fails: merging before inserting the breaks would join the
  two short segments of \<open>longPause\<close> across the four second pause into one segment and
  insert no marker, while the code returns both segments with the marker between them.
\<close>

theorem postProcessTranscription_order_counterexample:
  "map timedText (segments (postProcessTranscription asciiPunctuation
      \<lparr>segments = (longPause :: unit segment list), fullText = []\<rparr> defaultOptions))
   \<noteq> map timedText (spec_pipeline asciiPunctuation (longPause :: unit segment list))"
  by (simp add: longPause_processed longPause_spec_order)

section \<open>Confidence of the parsed segments\<close>



lemma fptSilent_confidence:
  "map confidence (parseFPTResponse (fptSilent :: 'w fpt_data)) = [1 / 2]"
  by (simp add: parseFPTResponse_def fptSilent_def fptSegment_def or_default_def truthy_def)

lemma whisperScored_confidence:
  "map confidence (parseWhisperResponse (whisperScored :: 'w whisper_data)) = [exp (- 1 / 4), 4 / 5]"
  by (simp add: parseWhisperResponse_def whisperScored_def whisperSegment_def truthy_def upt_rec)

lemma azureScored_confidence: "az_confidence (parseAzureResult azureScored) = Some (9 / 10)"
  by (simp add: parseAzureResult_def azureScored_def azureParsed_def)




section \<open>Speaker statistics against the sum of the durations\<close>















section \<open>Transcription jobs: failure and status changes\<close>





















end
